theory Spec2Isabelle
  imports Main "HOL-Library.Char_ord" "HOL-Library.List_Lexorder" "HOL-Library.Multiset"
begin

section \<open>Python values, strings and dictionaries\<close>

text \<open>
  The records that \<^verbatim>\<open>search_reddit\<close> builds are Python dictionaries with string keys
  and values that are strings, integers (\<^verbatim>\<open>score\<close>) or booleans (\<^verbatim>\<open>is_self_post\<close>).
  A dictionary keeps its keys in insertion order, so it is an association list with
  one entry per key. Strings are \<^typ>\<open>string\<close>; every string literal of the source is
  ASCII.
\<close>

datatype pyval = VStr string | VInt int | VBool bool

type_synonym pydict = "(string \<times> pyval) list"

text \<open>\<^verbatim>\<open>d[k] = v\<close>: the value is replaced where the key is present, else the key is
  added last.\<close>

fun dict_set :: "pydict \<Rightarrow> string \<Rightarrow> pyval \<Rightarrow> pydict" where
  "dict_set [] k v = [(k, v)]"
| "dict_set ((k', v') # d) k v = (if k' = k then (k, v) # d else (k', v') # dict_set d k v)"

text \<open>\<^verbatim>\<open>d.keys()\<close> and \<^verbatim>\<open>d.get(k)\<close>.\<close>

definition keys :: "pydict \<Rightarrow> string list" where
  "keys d = map fst d"

definition dict_get :: "pydict \<Rightarrow> string \<Rightarrow> pyval option" where
  "dict_get d k = map_of d k"

text \<open>\<^verbatim>\<open>needle in haystack\<close> on strings: the needle occurs as a contiguous run. The empty
  string occurs in every string.\<close>

fun startswith :: "'a list \<Rightarrow> 'a list \<Rightarrow> bool" where
  "startswith ys [] = (ys = [])"
| "startswith [] (x # xs) = True"
| "startswith (y # ys) (x # xs) = (y = x \<and> startswith ys xs)"

fun str_in :: "'a list \<Rightarrow> 'a list \<Rightarrow> bool" where
  "str_in ys [] = (ys = [])"
| "str_in ys (x # xs) = (startswith ys (x # xs) \<or> str_in ys xs)"

text \<open>\<^verbatim>\<open>str(x.author)\<close>: the author of a post or comment is a \<^verbatim>\<open>Redditor\<close>, whose
  \<^verbatim>\<open>str\<close> is its name, or \<^verbatim>\<open>None\<close> when the account is deleted, whose \<^verbatim>\<open>str\<close> is
  the four letters \<^verbatim>\<open>None\<close>.\<close>

fun py_str :: "string option \<Rightarrow> string" where
  "py_str None = ''None''"
| "py_str (Some name) = name"

section \<open>What the API returns\<close>

text \<open>
  The attributes of a PRAW comment and submission that the source reads. \<open>created_utc\<close>
  is the epoch time in seconds. \<open>submission_comments\<close> is what
  \<^verbatim>\<open>submission.comments.list()\<close> returns after \<^verbatim>\<open>replace_more(limit=0)\<close>: the loaded
  comments, flattened, with the "load more" placeholders removed.
\<close>

record comment =
  comment_author :: "string option"
  comment_score :: int
  comment_id :: string
  comment_created_utc :: int
  comment_body :: string

record submission =
  submission_title :: string
  submission_author :: "string option"
  submission_subreddit_display_name :: string
  submission_score :: int
  submission_permalink :: string
  submission_created_utc :: int
  submission_id :: string
  submission_is_self :: bool
  submission_selftext :: string
  submission_comments :: "comment list"

text \<open>
  The client handle: \<open>subreddit_search reddit name query sort time_filter limit\<close> is
  \<^verbatim>\<open>reddit.subreddit(name).search(query, sort=sort, time_filter=time_filter, limit=limit)\<close>,
  the posts in the order the listing yields them. Authentication, pagination and retries
  are the client library's; its answers are taken as given.
\<close>

record reddit =
  subreddit_search :: "string \<Rightarrow> string \<Rightarrow> string \<Rightarrow> string \<Rightarrow> int \<Rightarrow> submission list"

section \<open>The search-and-flatten pipeline: \<^verbatim>\<open>search_reddit\<close>\<close>

text \<open>
  Two functions of the Python runtime are parameters of the model. \<open>fmt\<close> stands for
  \<^verbatim>\<open>datetime.datetime.fromtimestamp(t).strftime('%Y-%m-%d %H:%M:%S')\<close>, which depends
  on the time zone of the process. \<open>lower\<close> stands for \<^verbatim>\<open>str.lower()\<close>, which
  lower-cases every cased character of Unicode.
\<close>

text \<open>Lines 46 to 63: the dictionary of a post. \<^verbatim>\<open>content\<close> is set last, after
  \<^verbatim>\<open>content_type\<close>.\<close>

definition post_data :: "(int \<Rightarrow> string) \<Rightarrow> string \<Rightarrow> submission \<Rightarrow> pydict" where
  "post_data fmt keyword submission =
     (let post_data =
        [(''keyword'', VStr keyword),
         (''title'', VStr (submission_title submission)),
         (''author'', VStr (py_str (submission_author submission))),
         (''subreddit'', VStr (submission_subreddit_display_name submission)),
         (''score'', VInt (submission_score submission)),
         (''url'', VStr (''https://www.reddit.com'' @ submission_permalink submission)),
         (''created_utc'', VStr (fmt (submission_created_utc submission))),
         (''post_id'', VStr (submission_id submission)),
         (''is_self_post'', VBool (submission_is_self submission)),
         (''content_type'', VStr ''submission'')]
      in if submission_is_self submission \<and> submission_selftext submission \<noteq> []
         then dict_set post_data ''content'' (VStr (submission_selftext submission))
         else dict_set post_data ''content'' (VStr ''[External link]''))"

text \<open>Lines 71 to 83: the dictionary of a comment. A \<^verbatim>\<open>Redditor\<close> object is truthy, so
  the conditional on line 74 tests the author against \<^verbatim>\<open>None\<close>.\<close>

definition comment_data :: "(int \<Rightarrow> string) \<Rightarrow> string \<Rightarrow> submission \<Rightarrow> comment \<Rightarrow> pydict" where
  "comment_data fmt keyword submission comment =
     [(''keyword'', VStr keyword),
      (''title'', VStr (submission_title submission)),
      (''author'', VStr (if comment_author comment \<noteq> None
                          then py_str (comment_author comment) else ''[deleted]'')),
      (''subreddit'', VStr (submission_subreddit_display_name submission)),
      (''score'', VInt (comment_score comment)),
      (''url'', VStr (''https://www.reddit.com'' @ submission_permalink submission
                        @ comment_id comment @ ''/'')),
      (''created_utc'', VStr (fmt (comment_created_utc comment))),
      (''post_id'', VStr (comment_id comment)),
      (''is_self_post'', VBool True),
      (''content'', VStr (comment_body comment)),
      (''content_type'', VStr ''comment'')]"

text \<open>Lines 69 to 84: the loop over the comments of one post; \<open>results\<close> is the list the
  source appends to.\<close>

fun comments_loop ::
  "(int \<Rightarrow> string) \<Rightarrow> (string \<Rightarrow> string) \<Rightarrow> string \<Rightarrow> submission \<Rightarrow> comment list
    \<Rightarrow> pydict list \<Rightarrow> pydict list" where
  "comments_loop fmt lower keyword submission [] results = results"
| "comments_loop fmt lower keyword submission (comment # rest) results =
     comments_loop fmt lower keyword submission rest
       (if str_in (lower keyword) (lower (comment_body comment))
        then results @ [comment_data fmt keyword submission comment]
        else results)"

text \<open>Lines 44 to 84: the loop over the posts of one search.\<close>

fun submissions_loop ::
  "(int \<Rightarrow> string) \<Rightarrow> (string \<Rightarrow> string) \<Rightarrow> string \<Rightarrow> submission list
    \<Rightarrow> pydict list \<Rightarrow> pydict list" where
  "submissions_loop fmt lower keyword [] results = results"
| "submissions_loop fmt lower keyword (submission # rest) results =
     submissions_loop fmt lower keyword rest
       (comments_loop fmt lower keyword submission (submission_comments submission)
          (results @ [post_data fmt keyword submission]))"

text \<open>Line 35: the keyword between double quotes. Lines 38 to 41: \<^verbatim>\<open>if subreddit\<close> is
  false for \<^verbatim>\<open>None\<close> and for the empty string.\<close>

definition query_of :: "string \<Rightarrow> string" where
  "query_of keyword = [CHR 0x22] @ keyword @ [CHR 0x22]"

definition submissions_of ::
  "reddit \<Rightarrow> string option \<Rightarrow> int \<Rightarrow> string \<Rightarrow> string \<Rightarrow> submission list" where
  "submissions_of reddit subreddit limit time_filter keyword =
     (case subreddit of
        Some name \<Rightarrow>
          if name \<noteq> []
          then subreddit_search reddit name (query_of keyword) ''new'' time_filter limit
          else subreddit_search reddit ''all'' (query_of keyword) ''new'' time_filter limit
      | None \<Rightarrow> subreddit_search reddit ''all'' (query_of keyword) ''new'' time_filter limit)"

text \<open>Lines 34 to 84: the loop over the keywords.\<close>

fun keywords_loop ::
  "(int \<Rightarrow> string) \<Rightarrow> (string \<Rightarrow> string) \<Rightarrow> reddit \<Rightarrow> string option \<Rightarrow> int \<Rightarrow> string
    \<Rightarrow> string list \<Rightarrow> pydict list \<Rightarrow> pydict list" where
  "keywords_loop fmt lower reddit subreddit limit time_filter [] results = results"
| "keywords_loop fmt lower reddit subreddit limit time_filter (keyword # rest) results =
     keywords_loop fmt lower reddit subreddit limit time_filter rest
       (submissions_loop fmt lower keyword
          (submissions_of reddit subreddit limit time_filter keyword) results)"

definition search_reddit ::
  "(int \<Rightarrow> string) \<Rightarrow> (string \<Rightarrow> string) \<Rightarrow> reddit \<Rightarrow> string list \<Rightarrow> string option \<Rightarrow> int
    \<Rightarrow> string \<Rightarrow> pydict list" where
  "search_reddit fmt lower reddit keywords subreddit limit time_filter =
     keywords_loop fmt lower reddit subreddit limit time_filter keywords []"

section \<open>The tabular writer: \<^verbatim>\<open>save_to_csv\<close>\<close>

text \<open>
  The world the writer acts on: the files, each a CSV table (its rows, each row its
  cells, before the quoting of the CSV dialect), the lines printed to standard output,
  and the paths that can be opened for writing. Where \<open>writable\<close> is false,
  \<^verbatim>\<open>open(filename, 'w')\<close> raises \<^verbatim>\<open>OSError\<close> (a missing directory, a directory as
  the path, the empty path, no permission) and creates or empties no file.
\<close>

record world =
  files :: "string \<rightharpoonup> pyval list list"
  stdout :: "string list"
  writable :: "string \<Rightarrow> bool"

datatype py_error = ValueError | OSError

text \<open>Lines 95 to 99: the union of the keys of all records, sorted.\<close>

definition fieldnames_of :: "pydict list \<Rightarrow> string list" where
  "fieldnames_of results =
     sorted_list_of_set (fold (\<lambda>result fieldnames. fieldnames \<union> set (keys result)) results {})"

text \<open>
  \<^verbatim>\<open>csv.DictWriter\<close> turns a dictionary into a row: with the default
  \<^verbatim>\<open>extrasaction='raise'\<close> a key outside the field names raises \<^verbatim>\<open>ValueError\<close>, and
  a field name the dictionary lacks gives the default \<^verbatim>\<open>restval\<close>, the empty string.
\<close>

definition row_cells :: "string list \<Rightarrow> pydict \<Rightarrow> pyval list" where
  "row_cells fieldnames rowdict =
     map (\<lambda>key. case dict_get rowdict key of None \<Rightarrow> VStr [] | Some v \<Rightarrow> v) fieldnames"

definition dict_to_list :: "string list \<Rightarrow> pydict \<Rightarrow> py_error + pyval list" where
  "dict_to_list fieldnames rowdict =
     (if list_ex (\<lambda>k. k \<notin> set fieldnames) (keys rowdict) then Inl ValueError
      else Inr (row_cells fieldnames rowdict))"

text \<open>\<^verbatim>\<open>writer.writerows\<close>: the rows are written one after the other; the first row
  that raises ends the loop, with the rows before it written.\<close>

fun writerows ::
  "string list \<Rightarrow> pydict list \<Rightarrow> pyval list list \<Rightarrow> py_error option \<times> pyval list list" where
  "writerows fieldnames [] csvfile = (None, csvfile)"
| "writerows fieldnames (rowdict # rest) csvfile =
     (case dict_to_list fieldnames rowdict of
        Inl e \<Rightarrow> (Some e, csvfile)
      | Inr row \<Rightarrow> writerows fieldnames rest (csvfile @ [row]))"

text \<open>Lines 88 to 106. The result is the exception that ended the call, if any, and
  the world after it. The field names are computed before the file is opened; an
  \<^verbatim>\<open>open\<close> that raises ends the call with nothing written or printed. Mode \<^verbatim>\<open>'w'\<close>
  empties the file before the header is written.\<close>

definition save_to_csv :: "pydict list \<Rightarrow> string \<Rightarrow> world \<Rightarrow> py_error option \<times> world" where
  "save_to_csv results filename w =
     (if results = [] then (None, w\<lparr>stdout := stdout w @ [''No results found.'']\<rparr>)
      else
        let fieldnames = fieldnames_of results
        in if \<not> writable w filename then (Some OSError, w)
           else
             let csvfile = [] @ [map VStr fieldnames];
                 (raised, csvfile) = writerows fieldnames results csvfile;
                 w = w\<lparr>files := (files w)(filename \<mapsto> csvfile)\<rparr>
             in case raised of
                  Some e \<Rightarrow> (Some e, w)
                | None \<Rightarrow> (None, w\<lparr>stdout := stdout w @ [''Results saved to '' @ filename]\<rparr>))"

section \<open>The structure of the output, in the words of the specification\<close>

text \<open>
  A Post Record is a record tagged \<^verbatim>\<open>submission\<close>, a Comment Record one tagged
  \<^verbatim>\<open>comment\<close>.
\<close>

definition is_post_record :: "pydict \<Rightarrow> bool" where
  "is_post_record r = (dict_get r ''content_type'' = Some (VStr ''submission''))"

definition is_comment_record :: "pydict \<Rightarrow> bool" where
  "is_comment_record r = (dict_get r ''content_type'' = Some (VStr ''comment''))"

text \<open>
  The comments of a post whose body contains the keyword, case-insensitively; the group
  of a post (its record, then the records of its matching comments, in their order);
  the block of a keyword (the groups of the posts its search returned, in their order).
\<close>

definition matching_comments :: "(string \<Rightarrow> string) \<Rightarrow> string \<Rightarrow> submission \<Rightarrow> comment list" where
  "matching_comments lower keyword submission =
     filter (\<lambda>comment. str_in (lower keyword) (lower (comment_body comment)))
       (submission_comments submission)"

definition post_group ::
  "(int \<Rightarrow> string) \<Rightarrow> (string \<Rightarrow> string) \<Rightarrow> string \<Rightarrow> submission \<Rightarrow> pydict list" where
  "post_group fmt lower keyword submission =
     post_data fmt keyword submission
       # map (comment_data fmt keyword submission) (matching_comments lower keyword submission)"

definition keyword_block ::
  "(int \<Rightarrow> string) \<Rightarrow> (string \<Rightarrow> string) \<Rightarrow> reddit \<Rightarrow> string option \<Rightarrow> int \<Rightarrow> string
    \<Rightarrow> string \<Rightarrow> pydict list" where
  "keyword_block fmt lower reddit subreddit limit time_filter keyword =
     concat (map (post_group fmt lower keyword)
               (submissions_of reddit subreddit limit time_filter keyword))"

text \<open>The eleven field names, in sorted order.\<close>

definition field_names :: "string list" where
  "field_names =
     [''author'', ''content'', ''content_type'', ''created_utc'', ''is_self_post'', ''keyword'',
      ''post_id'', ''score'', ''subreddit'', ''title'', ''url'']"

text \<open>The keyword a record carries.\<close>

definition keyword_of :: "pydict \<Rightarrow> pyval option" where
  "keyword_of r = dict_get r ''keyword''"

section \<open>Example data\<close>

text \<open>
  A small API: the search for \<^verbatim>\<open>"foo"\<close> (in any case) finds a text post with two
  comments and an external link, posted from a deleted account, with one comment; the
  search for \<^verbatim>\<open>"bar"\<close> finds a text post with an empty body. The listing stops after
  \<open>limit\<close> posts.
\<close>

text \<open>The example lower-casing moves the letters A to Z to a to z and keeps every other
  character: \<^verbatim>\<open>str.lower()\<close> on ASCII text.\<close>

definition ex_lower_char :: "char \<Rightarrow> char" where
  "ex_lower_char c =
     (if CHR ''A'' \<le> c \<and> c \<le> CHR ''Z'' then char_of (of_char c + (32 :: nat)) else c)"

definition ex_lower :: "string \<Rightarrow> string" where
  "ex_lower s = map ex_lower_char s"

definition ex_fmt :: "int \<Rightarrow> string" where
  "ex_fmt t = ''1970-01-01 00:00:00''"

definition ex_comment1 :: comment where
  "ex_comment1 = \<lparr>comment_author = Some ''bob'', comment_score = 3, comment_id = ''c1'',
     comment_created_utc = 60, comment_body = ''I like FOO a lot''\<rparr>"

definition ex_comment2 :: comment where
  "ex_comment2 = \<lparr>comment_author = None, comment_score = 1, comment_id = ''c2'',
     comment_created_utc = 61, comment_body = ''nothing here''\<rparr>"

definition ex_comment3 :: comment where
  "ex_comment3 = \<lparr>comment_author = None, comment_score = 0, comment_id = ''c3'',
     comment_created_utc = 62, comment_body = ''foo!''\<rparr>"

definition ex_submission1 :: submission where
  "ex_submission1 = \<lparr>submission_title = ''About foo'', submission_author = Some ''alice'',
     submission_subreddit_display_name = ''test'', submission_score = 5,
     submission_permalink = ''/r/test/comments/p1/about_foo/'', submission_created_utc = 0,
     submission_id = ''p1'', submission_is_self = True, submission_selftext = ''foo text'',
     submission_comments = [ex_comment1, ex_comment2]\<rparr>"

definition ex_submission2 :: submission where
  "ex_submission2 = \<lparr>submission_title = ''A foo link'', submission_author = None,
     submission_subreddit_display_name = ''test'', submission_score = 2,
     submission_permalink = ''/r/test/comments/p2/a_foo_link/'', submission_created_utc = 1,
     submission_id = ''p2'', submission_is_self = False, submission_selftext = [],
     submission_comments = [ex_comment3]\<rparr>"

definition ex_submission3 :: submission where
  "ex_submission3 = \<lparr>submission_title = ''bar?'', submission_author = Some ''carol'',
     submission_subreddit_display_name = ''test'', submission_score = 1,
     submission_permalink = ''/r/test/comments/p3/bar/'', submission_created_utc = 2,
     submission_id = ''p3'', submission_is_self = True, submission_selftext = [],
     submission_comments = []\<rparr>"

definition ex_search :: "string \<Rightarrow> string \<Rightarrow> string \<Rightarrow> string \<Rightarrow> int \<Rightarrow> submission list" where
  "ex_search name query sort_by time_filter limit =
     take (nat limit)
       (if ex_lower query = query_of ''foo'' then [ex_submission1, ex_submission2]
        else if ex_lower query = query_of ''bar'' then [ex_submission3]
        else [])"

definition ex_reddit :: reddit where
  "ex_reddit = \<lparr>subreddit_search = ex_search\<rparr>"

text \<open>A world with no file yet and nothing printed, whose working directory can be
  written to and has no subdirectory.\<close>

definition ex_writable :: "string \<Rightarrow> bool" where
  "ex_writable path = (path \<noteq> [] \<and> CHR ''/'' \<notin> set path)"

definition ex_world :: world where
  "ex_world = \<lparr>files = Map.empty, stdout = [], writable = ex_writable\<rparr>"

text \<open>Records with different key sets, for the writer.\<close>

definition ex_rows :: "pydict list" where
  "ex_rows = [[(''b'', VInt 1)], [(''c'', VBool True), (''a'', VStr ''x'')]]"

section \<open>Strings: what \<^verbatim>\<open>in\<close> decides\<close>

lemma startswith_iff: "startswith ys xs \<longleftrightarrow> (\<exists>ss. xs = ys @ ss)"
  by (induction ys xs rule: startswith.induct) auto

lemma str_in_iff: "str_in ys xs \<longleftrightarrow> (\<exists>ps ss. xs = ps @ ys @ ss)"
proof (induction xs)
  case Nil
  then show ?case by simp
next
  case (Cons x xs)
  show ?case
  proof
    assume "str_in ys (x # xs)"
    then consider "startswith ys (x # xs)" | "str_in ys xs" by auto
    then show "\<exists>ps ss. x # xs = ps @ ys @ ss"
    proof cases
      case 1
      then obtain ss where "x # xs = ys @ ss" by (auto simp: startswith_iff)
      then have "x # xs = [] @ ys @ ss" by simp
      then show ?thesis by blast
    next
      case 2
      with Cons.IH obtain ps ss where "xs = ps @ ys @ ss" by blast
      then have "x # xs = (x # ps) @ ys @ ss" by simp
      then show ?thesis by blast
    qed
  next
    assume "\<exists>ps ss. x # xs = ps @ ys @ ss"
    then obtain ps ss where eq: "x # xs = ps @ ys @ ss" by blast
    show "str_in ys (x # xs)"
    proof (cases ps)
      case Nil
      with eq have "startswith ys (x # xs)" by (auto simp: startswith_iff)
      then show ?thesis by simp
    next
      case (Cons p ps')
      with eq have "xs = ps' @ ys @ ss" by simp
      with Cons.IH have "str_in ys xs" by blast
      then show ?thesis by simp
    qed
  qed
qed

section \<open>The loops, as lists\<close>

text \<open>Each loop appends to \<open>results\<close>; what it appends does not depend on what
  \<open>results\<close> held.\<close>

lemma comments_loop_append:
  "comments_loop fmt lower keyword submission cs results =
     results @ map (comment_data fmt keyword submission)
       (filter (\<lambda>comment. str_in (lower keyword) (lower (comment_body comment))) cs)"
  by (induction cs arbitrary: results) auto

lemma submissions_loop_append:
  "submissions_loop fmt lower keyword ss results =
     results @ concat (map (post_group fmt lower keyword) ss)"
  by (induction ss arbitrary: results)
     (auto simp: comments_loop_append post_group_def matching_comments_def)

lemma keywords_loop_append:
  "keywords_loop fmt lower reddit subreddit limit time_filter kws results =
     results @ concat (map (keyword_block fmt lower reddit subreddit limit time_filter) kws)"
  by (induction kws arbitrary: results)
     (auto simp: submissions_loop_append keyword_block_def)

lemma search_reddit_blocks:
  "search_reddit fmt lower reddit kws subreddit limit time_filter =
     concat (map (keyword_block fmt lower reddit subreddit limit time_filter) kws)"
  by (simp add: search_reddit_def keywords_loop_append)

lemma keys_post_data:
  "keys (post_data fmt keyword submission) =
     [''keyword'', ''title'', ''author'', ''subreddit'', ''score'', ''url'', ''created_utc'',
      ''post_id'', ''is_self_post'', ''content_type'', ''content'']"
  by (simp add: post_data_def keys_def Let_def)

lemma keys_comment_data:
  "keys (comment_data fmt keyword submission comment) =
     [''keyword'', ''title'', ''author'', ''subreddit'', ''score'', ''url'', ''created_utc'',
      ''post_id'', ''is_self_post'', ''content'', ''content_type'']"
  by (simp add: comment_data_def keys_def)

section \<open>Which records the pipeline emits\<close>

lemma is_post_record_post_data [simp]: "is_post_record (post_data fmt keyword submission)"
  by (simp add: is_post_record_def dict_get_def post_data_def Let_def)

lemma is_comment_record_post_data [simp]:
  "\<not> is_comment_record (post_data fmt keyword submission)"
  by (simp add: is_comment_record_def dict_get_def post_data_def Let_def)

lemma is_comment_record_comment_data [simp]:
  "is_comment_record (comment_data fmt keyword submission comment)"
  by (simp add: is_comment_record_def dict_get_def comment_data_def)

lemma is_post_record_comment_data [simp]:
  "\<not> is_post_record (comment_data fmt keyword submission comment)"
  by (simp add: is_post_record_def dict_get_def comment_data_def)

lemma filter_comment_post_group:
  "filter is_comment_record (post_group fmt lower keyword submission) =
     map (comment_data fmt keyword submission) (matching_comments lower keyword submission)"
  by (simp add: post_group_def filter_map comp_def)

lemma filter_post_post_group:
  "filter is_post_record (post_group fmt lower keyword submission) = [post_data fmt keyword submission]"
  by (simp add: post_group_def filter_map comp_def)

lemma in_search_reddit_iff:
  "r \<in> set (search_reddit fmt lower reddit kws subreddit limit time_filter) \<longleftrightarrow>
     (\<exists>keyword \<in> set kws.
        \<exists>submission \<in> set (submissions_of reddit subreddit limit time_filter keyword).
          r = post_data fmt keyword submission \<or>
          (\<exists>comment \<in> set (matching_comments lower keyword submission).
             r = comment_data fmt keyword submission comment))"
  by (auto simp: search_reddit_blocks keyword_block_def post_group_def)

lemma comment_record_in_search_reddit:
  assumes "r \<in> set (search_reddit fmt lower reddit kws subreddit limit time_filter)"
    and "is_comment_record r"
  obtains keyword submission comment where
    "keyword \<in> set kws"
    "submission \<in> set (submissions_of reddit subreddit limit time_filter keyword)"
    "comment \<in> set (submission_comments submission)"
    "str_in (lower keyword) (lower (comment_body comment))"
    "r = comment_data fmt keyword submission comment"
  using assms by (auto simp: in_search_reddit_iff matching_comments_def)

text \<open>The pipeline on the example API, keyword \<^verbatim>\<open>Foo\<close>, limit 10.\<close>

lemma ex_results_Foo:
  "search_reddit ex_fmt ex_lower ex_reddit [''Foo''] None 10 ''week'' =
     [post_data ex_fmt ''Foo'' ex_submission1,
      comment_data ex_fmt ''Foo'' ex_submission1 ex_comment1,
      post_data ex_fmt ''Foo'' ex_submission2,
      comment_data ex_fmt ''Foo'' ex_submission2 ex_comment3]"
  by code_simp

section \<open>Comment records and the keyword\<close>

text \<open>
  Claim C1. Every Comment Record in the output of \<open>search_reddit\<close> has a content whose
  lower-cased text contains the lower-cased keyword of the record as a contiguous
  substring. A comment whose body does not contain the keyword produces no record: the
  Comment Records of the output are, in order, the records of exactly the comments whose
  lower-cased body contains the lower-cased keyword.
\<close>

theorem comment_records_contain_keyword:
  "(\<forall>r \<in> set (search_reddit fmt lower reddit kws subreddit limit time_filter).
      is_comment_record r \<longrightarrow>
      (\<exists>keyword body ps ss.
         dict_get r ''keyword'' = Some (VStr keyword) \<and>
         dict_get r ''content'' = Some (VStr body) \<and>
         lower body = ps @ lower keyword @ ss))
   \<and> filter is_comment_record (search_reddit fmt lower reddit kws subreddit limit time_filter) =
       concat (map (\<lambda>keyword.
         concat (map (\<lambda>submission.
           map (comment_data fmt keyword submission)
             (filter (\<lambda>comment. \<exists>ps ss. lower (comment_body comment) = ps @ lower keyword @ ss)
                (submission_comments submission)))
           (submissions_of reddit subreddit limit time_filter keyword))) kws)"
proof
  show "\<forall>r \<in> set (search_reddit fmt lower reddit kws subreddit limit time_filter).
      is_comment_record r \<longrightarrow>
      (\<exists>keyword body ps ss.
         dict_get r ''keyword'' = Some (VStr keyword) \<and>
         dict_get r ''content'' = Some (VStr body) \<and>
         lower body = ps @ lower keyword @ ss)"
  proof (intro ballI impI)
    fix r
    assume "r \<in> set (search_reddit fmt lower reddit kws subreddit limit time_filter)"
      and "is_comment_record r"
    then obtain keyword submission comment where
      m: "str_in (lower keyword) (lower (comment_body comment))"
      and r: "r = comment_data fmt keyword submission comment"
      by (rule comment_record_in_search_reddit)
    from m obtain ps ss where "lower (comment_body comment) = ps @ lower keyword @ ss"
      by (auto simp: str_in_iff)
    moreover have "dict_get r ''keyword'' = Some (VStr keyword)"
      and "dict_get r ''content'' = Some (VStr (comment_body comment))"
      by (simp_all add: r comment_data_def dict_get_def)
    ultimately show "\<exists>keyword body ps ss.
         dict_get r ''keyword'' = Some (VStr keyword) \<and>
         dict_get r ''content'' = Some (VStr body) \<and>
         lower body = ps @ lower keyword @ ss"
      by blast
  qed
next
  show "filter is_comment_record (search_reddit fmt lower reddit kws subreddit limit time_filter) =
       concat (map (\<lambda>keyword.
         concat (map (\<lambda>submission.
           map (comment_data fmt keyword submission)
             (filter (\<lambda>comment. \<exists>ps ss. lower (comment_body comment) = ps @ lower keyword @ ss)
                (submission_comments submission)))
           (submissions_of reddit subreddit limit time_filter keyword))) kws)"
    by (simp add: search_reddit_blocks keyword_block_def filter_concat comp_def
        filter_comment_post_group matching_comments_def str_in_iff)
qed

theorem comment_records_contain_keyword_witness:
  "is_comment_record (comment_data ex_fmt ''Foo'' ex_submission1 ex_comment1) \<and>
   (\<exists>ps ss. ex_lower ''I like FOO a lot'' = ps @ ex_lower ''Foo'' @ ss) \<and>
   filter is_comment_record (search_reddit ex_fmt ex_lower ex_reddit [''Foo''] None 10 ''week'') =
     [comment_data ex_fmt ''Foo'' ex_submission1 ex_comment1,
      comment_data ex_fmt ''Foo'' ex_submission2 ex_comment3]"
proof -
  let ?r = "comment_data ex_fmt ''Foo'' ex_submission1 ex_comment1"
  note inst = comment_records_contain_keyword
    [of ex_fmt ex_lower ex_reddit "[''Foo'']" None 10 "''week''"]
  have mem: "?r \<in> set (search_reddit ex_fmt ex_lower ex_reddit [''Foo''] None 10 ''week'')"
    by (simp add: ex_results_Foo)
  have c: "is_comment_record ?r" by simp
  from inst mem c obtain keyword body ps ss where
    "dict_get ?r ''keyword'' = Some (VStr keyword)"
    "dict_get ?r ''content'' = Some (VStr body)"
    "ex_lower body = ps @ ex_lower keyword @ ss"
    by blast
  then have "ex_lower ''I like FOO a lot'' = ps @ ex_lower ''Foo'' @ ss"
    by (simp add: comment_data_def dict_get_def ex_comment1_def)
  then have e: "\<exists>ps ss. ex_lower ''I like FOO a lot'' = ps @ ex_lower ''Foo'' @ ss" by blast
  have f: "filter is_comment_record (search_reddit ex_fmt ex_lower ex_reddit [''Foo''] None 10 ''week'') =
     [comment_data ex_fmt ''Foo'' ex_submission1 ex_comment1,
      comment_data ex_fmt ''Foo'' ex_submission2 ex_comment3]"
    by (simp add: ex_results_Foo)
  from c e f show ?thesis by blast
qed

section \<open>How many Post Records\<close>

lemma post_records_of_block:
  "filter is_post_record (keyword_block fmt lower reddit subreddit limit time_filter keyword) =
     map (post_data fmt keyword) (submissions_of reddit subreddit limit time_filter keyword)"
  by (induction "submissions_of reddit subreddit limit time_filter keyword")
     (simp_all add: keyword_block_def filter_concat comp_def filter_post_post_group)

lemma post_records_of_search_reddit:
  "filter is_post_record (search_reddit fmt lower reddit kws subreddit limit time_filter) =
     concat (map (\<lambda>keyword. map (post_data fmt keyword)
                    (submissions_of reddit subreddit limit time_filter keyword)) kws)"
  by (simp add: search_reddit_blocks filter_concat comp_def post_records_of_block)

lemma sum_list_bounded:
  "(\<forall>x \<in> set xs. int (f x) \<le> b) \<Longrightarrow> int (sum_list (map f xs)) \<le> b * int (length xs)"
  by (induction xs) (auto simp: algebra_simps)

text \<open>Each search of the pipeline is a request to the client with the \<open>limit\<close> the
  pipeline was given, so a client that returns at most \<open>limit\<close> posts per request bounds
  each of them.\<close>

lemma submissions_of_bounded:
  assumes "\<forall>name query sort_by time_filter.
     length (subreddit_search reddit name query sort_by time_filter limit) \<le> nat limit"
  shows "length (submissions_of reddit subreddit limit time_filter keyword) \<le> nat limit"
  using assms by (simp add: submissions_of_def split: option.split)

text \<open>
  Claim C2, as amended. Each post a search returns yields exactly one Post Record, so the
  Post Records of the output are as many as the posts of all searches together. For a
  limit that is not negative and a client that returns at most \<open>limit\<close> posts for every
  request made with that limit, the output holds at most \<open>limit\<close> times the number of
  keywords Post Records, for every keyword list.
\<close>

theorem post_records_at_most_limit_per_keyword:
  "length (filter is_post_record
     (search_reddit fmt lower reddit kws subreddit limit time_filter)) =
     sum_list (map (\<lambda>keyword.
       length (submissions_of reddit subreddit limit time_filter keyword)) kws)
   \<and> (0 \<le> limit \<and>
       (\<forall>name query sort_by time_filter.
          length (subreddit_search reddit name query sort_by time_filter limit) \<le> nat limit) \<longrightarrow>
        int (length (filter is_post_record
               (search_reddit fmt lower reddit kws subreddit limit time_filter)))
          \<le> limit * int (length kws))"
proof (intro conjI impI)
  show count: "length (filter is_post_record
     (search_reddit fmt lower reddit kws subreddit limit time_filter)) =
       sum_list (map (\<lambda>keyword.
         length (submissions_of reddit subreddit limit time_filter keyword)) kws)"
    by (simp add: post_records_of_search_reddit length_concat comp_def)
  assume h: "0 \<le> limit \<and>
       (\<forall>name query sort_by time_filter.
          length (subreddit_search reddit name query sort_by time_filter limit) \<le> nat limit)"
  have "\<forall>keyword \<in> set kws.
      int (length (submissions_of reddit subreddit limit time_filter keyword)) \<le> limit"
  proof
    fix keyword
    from h have "length (submissions_of reddit subreddit limit time_filter keyword) \<le> nat limit"
      by (intro submissions_of_bounded) blast
    with h show "int (length (submissions_of reddit subreddit limit time_filter keyword)) \<le> limit"
      by linarith
  qed
  then have "int (sum_list (map (\<lambda>keyword.
         length (submissions_of reddit subreddit limit time_filter keyword)) kws))
       \<le> limit * int (length kws)"
    by (rule sum_list_bounded)
  with count show "int (length (filter is_post_record
               (search_reddit fmt lower reddit kws subreddit limit time_filter)))
          \<le> limit * int (length kws)"
    by simp
qed

lemma ex_results_foo_bar:
  "search_reddit ex_fmt ex_lower ex_reddit [''foo'', ''bar''] None 2 ''day'' =
     [post_data ex_fmt ''foo'' ex_submission1,
      comment_data ex_fmt ''foo'' ex_submission1 ex_comment1,
      post_data ex_fmt ''foo'' ex_submission2,
      comment_data ex_fmt ''foo'' ex_submission2 ex_comment3,
      post_data ex_fmt ''bar'' ex_submission3]"
  by code_simp

lemma ex_reddit_honours_limit:
  "length (subreddit_search ex_reddit name query sort_by time_filter limit) \<le> nat limit"
  by (simp add: ex_reddit_def ex_search_def)

theorem post_records_at_most_limit_per_keyword_witness:
  "length (filter is_post_record
     (search_reddit ex_fmt ex_lower ex_reddit [''foo'', ''bar''] None 2 ''day'')) = 3
   \<and> int (length (filter is_post_record
       (search_reddit ex_fmt ex_lower ex_reddit [''foo'', ''bar''] None 2 ''day'')))
      \<le> 2 * int (length [''foo'', ''bar''])"
proof -
  have h: "(0::int) \<le> 2 \<and>
     (\<forall>name query sort_by time_filter.
        length (subreddit_search ex_reddit name query sort_by time_filter 2) \<le> nat 2)"
    using ex_reddit_honours_limit [where limit = 2] by simp
  from post_records_at_most_limit_per_keyword
         [of ex_fmt ex_lower ex_reddit "[''foo'', ''bar'']" None 2 "''day''"] h
  have "int (length (filter is_post_record
       (search_reddit ex_fmt ex_lower ex_reddit [''foo'', ''bar''] None 2 ''day'')))
      \<le> 2 * int (length [''foo'', ''bar''])"
    by blast
  moreover have "length (filter is_post_record
     (search_reddit ex_fmt ex_lower ex_reddit [''foo'', ''bar''] None 2 ''day'')) = 3"
    by (simp add: ex_results_foo_bar)
  ultimately show ?thesis by blast
qed

text \<open>The claim as written, for every limit, fails for a negative limit: the client
  returns no post, and the number of Post Records, zero, is above \<open>limit\<close> times the
  number of keywords.\<close>

theorem post_records_negative_limit_counterexample:
  "[''foo''] \<noteq> []
   \<and> submissions_of ex_reddit None (- 1) ''week'' ''foo'' = []
   \<and> length (filter is_post_record
        (search_reddit ex_fmt ex_lower ex_reddit [''foo''] None (- 1) ''week'')) = 0
   \<and> \<not> int (length (filter is_post_record
            (search_reddit ex_fmt ex_lower ex_reddit [''foo''] None (- 1) ''week'')))
          \<le> (- 1) * int (length [''foo''])"
proof -
  have s: "submissions_of ex_reddit None (- 1) ''week'' ''foo'' = []"
    by (simp add: submissions_of_def ex_reddit_def ex_search_def)
  have "search_reddit ex_fmt ex_lower ex_reddit [''foo''] None (- 1) ''week'' = []"
    by (simp add: search_reddit_blocks keyword_block_def s)
  with s show ?thesis by simp
qed

section \<open>The fields of a record\<close>

lemma dict_get_post_data:
  "dict_get (post_data fmt keyword submission) ''keyword'' = Some (VStr keyword)"
  "dict_get (post_data fmt keyword submission) ''author'' =
     Some (VStr (py_str (submission_author submission)))"
  "dict_get (post_data fmt keyword submission) ''content'' =
     Some (VStr (if submission_is_self submission \<and> submission_selftext submission \<noteq> []
                 then submission_selftext submission else ''[External link]''))"
  by (simp_all add: post_data_def dict_get_def Let_def)

lemma dict_get_comment_data:
  "dict_get (comment_data fmt keyword submission comment) ''keyword'' = Some (VStr keyword)"
  "dict_get (comment_data fmt keyword submission comment) ''author'' =
     Some (VStr (if comment_author comment \<noteq> None
                 then py_str (comment_author comment) else ''[deleted]''))"
  "dict_get (comment_data fmt keyword submission comment) ''post_id'' =
     Some (VStr (comment_id comment))"
  "dict_get (comment_data fmt keyword submission comment) ''is_self_post'' = Some (VBool True)"
  "dict_get (comment_data fmt keyword submission comment) ''content'' =
     Some (VStr (comment_body comment))"
  "dict_get (comment_data fmt keyword submission comment) ''content_type'' =
     Some (VStr ''comment'')"
  by (simp_all add: comment_data_def dict_get_def)

text \<open>
  Claim C3. The record of a post whose author is absent is built without an exception,
  but its author field is the text \<^verbatim>\<open>None\<close>, which is what \<^verbatim>\<open>str(None)\<close> gives, and not
  the placeholder \<^verbatim>\<open>[deleted]\<close>. The record of a comment whose author is absent does
  carry \<^verbatim>\<open>[deleted]\<close>: line 74 tests the author, line 49 does not.
\<close>

theorem post_author_absent_is_None:
  "dict_get (post_data fmt keyword (submission\<lparr>submission_author := None\<rparr>)) ''author'' =
     Some (VStr ''None'')
   \<and> dict_get (post_data fmt keyword (submission\<lparr>submission_author := None\<rparr>)) ''author'' \<noteq>
     Some (VStr ''[deleted]'')
   \<and> dict_get (comment_data fmt keyword submission (comment\<lparr>comment_author := None\<rparr>))
       ''author'' = Some (VStr ''[deleted]'')
   \<and> dict_get (hd (search_reddit ex_fmt ex_lower ex_reddit [''foo''] None 10 ''week'')) ''author'' =
       Some (VStr ''alice'')
   \<and> submission_author ex_submission2 = None
   \<and> dict_get (search_reddit ex_fmt ex_lower ex_reddit [''foo''] None 10 ''week'' ! 2) ''author'' =
       Some (VStr ''None'')"
proof -
  have r: "search_reddit ex_fmt ex_lower ex_reddit [''foo''] None 10 ''week'' =
     [post_data ex_fmt ''foo'' ex_submission1,
      comment_data ex_fmt ''foo'' ex_submission1 ex_comment1,
      post_data ex_fmt ''foo'' ex_submission2,
      comment_data ex_fmt ''foo'' ex_submission2 ex_comment3]"
    by code_simp
  show ?thesis
    by (simp add: r dict_get_post_data dict_get_comment_data
        ex_submission1_def ex_submission2_def)
qed

text \<open>
  Claim C4, as amended. The content of a Post Record is the body of the post when the
  post is a text post with a non-empty body, and the external-link sentinel otherwise:
  also for a text post whose body is empty.
\<close>

theorem post_content_body_or_sentinel:
  "dict_get (post_data fmt keyword submission) ''content'' =
     Some (VStr (if submission_is_self submission \<and> submission_selftext submission \<noteq> []
                 then submission_selftext submission else ''[External link]''))
   \<and> filter is_post_record (search_reddit fmt lower reddit kws subreddit limit time_filter) =
       concat (map (\<lambda>keyword. map (post_data fmt keyword)
                      (submissions_of reddit subreddit limit time_filter keyword)) kws)"
  by (simp add: dict_get_post_data post_records_of_search_reddit)

text \<open>The claim as written fails on a text post with an empty body: its record holds the
  sentinel, not the (empty) body.\<close>

theorem post_content_text_post_counterexample:
  "submission_is_self ex_submission3
   \<and> search_reddit ex_fmt ex_lower ex_reddit [''bar''] None 10 ''week'' =
       [post_data ex_fmt ''bar'' ex_submission3]
   \<and> dict_get (post_data ex_fmt ''bar'' ex_submission3) ''content'' =
       Some (VStr ''[External link]'')
   \<and> dict_get (post_data ex_fmt ''bar'' ex_submission3) ''content'' \<noteq>
       Some (VStr (submission_selftext ex_submission3))"
proof -
  have "search_reddit ex_fmt ex_lower ex_reddit [''bar''] None 10 ''week'' =
       [post_data ex_fmt ''bar'' ex_submission3]"
    by code_simp
  then show ?thesis
    by (simp add: dict_get_post_data ex_submission3_def)
qed

text \<open>
  Claim C6. The identifier of a Comment Record is the id of the comment itself and its
  content type is \<^verbatim>\<open>comment\<close>; every Comment Record of the output is the record of a
  comment of a returned post whose body matches, so it carries that comment's id.
\<close>

theorem comment_record_has_comment_id:
  "dict_get (comment_data fmt keyword submission comment) ''post_id'' =
     Some (VStr (comment_id comment))
   \<and> dict_get (comment_data fmt keyword submission comment) ''content_type'' =
     Some (VStr ''comment'')
   \<and> (\<forall>r \<in> set (search_reddit fmt lower reddit kws subreddit limit time_filter).
        is_comment_record r \<longrightarrow>
        (\<exists>keyword submission comment.
           keyword \<in> set kws \<and>
           submission \<in> set (submissions_of reddit subreddit limit time_filter keyword) \<and>
           comment \<in> set (submission_comments submission) \<and>
           r = comment_data fmt keyword submission comment \<and>
           dict_get r ''post_id'' = Some (VStr (comment_id comment))))"
proof (intro conjI ballI impI)
  fix r
  assume "r \<in> set (search_reddit fmt lower reddit kws subreddit limit time_filter)"
    and "is_comment_record r"
  then obtain keyword submission comment where
    "keyword \<in> set kws"
    "submission \<in> set (submissions_of reddit subreddit limit time_filter keyword)"
    "comment \<in> set (submission_comments submission)"
    "r = comment_data fmt keyword submission comment"
    by (rule comment_record_in_search_reddit)
  then show "\<exists>keyword submission comment.
           keyword \<in> set kws \<and>
           submission \<in> set (submissions_of reddit subreddit limit time_filter keyword) \<and>
           comment \<in> set (submission_comments submission) \<and>
           r = comment_data fmt keyword submission comment \<and>
           dict_get r ''post_id'' = Some (VStr (comment_id comment))"
    using dict_get_comment_data(3) by blast
qed (simp_all add: dict_get_comment_data)

theorem comment_record_has_comment_id_witness:
  "is_comment_record (search_reddit ex_fmt ex_lower ex_reddit [''Foo''] None 10 ''week'' ! 1)
   \<and> dict_get (search_reddit ex_fmt ex_lower ex_reddit [''Foo''] None 10 ''week'' ! 1) ''post_id'' =
       Some (VStr ''c1'')
   \<and> submission_id ex_submission1 = ''p1''"
proof -
  let ?rs = "search_reddit ex_fmt ex_lower ex_reddit [''Foo''] None 10 ''week''"
  have mem: "?rs ! 1 \<in> set ?rs" and c: "is_comment_record (?rs ! 1)"
    by (simp_all add: ex_results_Foo)
  from comment_record_has_comment_id [of ex_fmt "''Foo''" ex_submission1 ex_comment1
         ex_lower ex_reddit "[''Foo'']" None 10 "''week''"] mem c
  obtain keyword submission comment where
    r: "?rs ! 1 = comment_data ex_fmt keyword submission comment"
    and i: "dict_get (?rs ! 1) ''post_id'' = Some (VStr (comment_id comment))"
    by blast
  from r have "comment_id comment = ''c1''"
    by (simp add: ex_results_Foo comment_data_def ex_comment1_def)
  with i c show ?thesis by (simp add: ex_submission1_def)
qed

text \<open>
  Claim C9. The \<^verbatim>\<open>is_self_post\<close> field of a Comment Record is \<^verbatim>\<open>True\<close> whatever the
  parent post is, a text post or an external link; so it is for every Comment Record of
  the output.
\<close>

theorem comment_record_is_self_post_True:
  "dict_get (comment_data fmt keyword (submission\<lparr>submission_is_self := b\<rparr>) comment)
     ''is_self_post'' = Some (VBool True)
   \<and> (\<forall>r \<in> set (search_reddit fmt lower reddit kws subreddit limit time_filter).
        is_comment_record r \<longrightarrow> dict_get r ''is_self_post'' = Some (VBool True))"
proof (intro conjI ballI impI)
  fix r
  assume "r \<in> set (search_reddit fmt lower reddit kws subreddit limit time_filter)"
    and "is_comment_record r"
  then obtain keyword submission comment where
    "r = comment_data fmt keyword submission comment"
    by (rule comment_record_in_search_reddit)
  then show "dict_get r ''is_self_post'' = Some (VBool True)"
    by (simp add: dict_get_comment_data)
qed (simp add: dict_get_comment_data)

theorem comment_record_is_self_post_True_witness:
  "\<not> submission_is_self ex_submission2
   \<and> search_reddit ex_fmt ex_lower ex_reddit [''Foo''] None 10 ''week'' ! 3 =
       comment_data ex_fmt ''Foo'' ex_submission2 ex_comment3
   \<and> dict_get (search_reddit ex_fmt ex_lower ex_reddit [''Foo''] None 10 ''week'' ! 3) ''is_self_post'' =
       Some (VBool True)"
proof -
  let ?rs = "search_reddit ex_fmt ex_lower ex_reddit [''Foo''] None 10 ''week''"
  have mem: "?rs ! 3 \<in> set ?rs" and c: "is_comment_record (?rs ! 3)"
    and e: "?rs ! 3 = comment_data ex_fmt ''Foo'' ex_submission2 ex_comment3"
    by (simp_all add: ex_results_Foo)
  from comment_record_is_self_post_True
         [where fmt = ex_fmt and lower = ex_lower and reddit = ex_reddit and kws = "[''Foo'']"
            and subreddit = None and limit = 10 and time_filter = "''week''"]
       mem c
  have "dict_get (?rs ! 3) ''is_self_post'' = Some (VBool True)" by blast
  with e show ?thesis by (simp add: ex_submission2_def)
qed

section \<open>The order of the output\<close>

lemma keyword_of_block:
  "r \<in> set (keyword_block fmt lower reddit subreddit limit time_filter keyword) \<Longrightarrow>
     keyword_of r = Some (VStr keyword)"
  by (auto simp: keyword_block_def post_group_def keyword_of_def
      dict_get_post_data dict_get_comment_data)

lemma keywords_of_block:
  "map keyword_of (keyword_block fmt lower reddit subreddit limit time_filter keyword) =
     replicate (length (keyword_block fmt lower reddit subreddit limit time_filter keyword))
       (Some (VStr keyword))"
proof -
  have "map keyword_of (keyword_block fmt lower reddit subreddit limit time_filter keyword) =
      map (\<lambda>r. Some (VStr keyword)) (keyword_block fmt lower reddit subreddit limit time_filter keyword)"
    by (rule map_cong [OF refl]) (rule keyword_of_block)
  then show ?thesis by (simp add: map_replicate_const)
qed

text \<open>Runs of equal elements: a list made of one constant run per key, the keys distinct,
  has one run for each key whose run is not empty.\<close>

lemma remdups_adj_replicate_append:
  "x \<notin> set ys \<Longrightarrow>
     remdups_adj (replicate n x @ ys) = (if n = 0 then [] else [x]) @ remdups_adj ys"
proof (induction n)
  case 0
  then show ?case by simp
next
  case (Suc n)
  show ?case
  proof (cases n)
    case 0
    with Suc.prems show ?thesis by (cases ys) auto
  next
    case (Suc m)
    with Suc.IH [OF Suc.prems] show ?thesis by simp
  qed
qed

lemma remdups_adj_runs:
  assumes "inj g"
  shows "distinct ks \<Longrightarrow>
     remdups_adj (concat (map (\<lambda>k. replicate (n k) (g k)) ks)) =
       map g (filter (\<lambda>k. n k \<noteq> 0) ks)"
proof (induction ks)
  case Nil
  then show ?case by simp
next
  case (Cons k ks)
  have "set (concat (map (\<lambda>k. replicate (n k) (g k)) ks)) \<subseteq> g ` set ks"
    by auto
  moreover from Cons.prems assms have "g k \<notin> g ` set ks"
    by (auto dest: injD)
  ultimately have "g k \<notin> set (concat (map (\<lambda>k. replicate (n k) (g k)) ks))"
    by blast
  then have "remdups_adj (replicate (n k) (g k) @ concat (map (\<lambda>k. replicate (n k) (g k)) ks)) =
      (if n k = 0 then [] else [g k]) @ remdups_adj (concat (map (\<lambda>k. replicate (n k) (g k)) ks))"
    by (rule remdups_adj_replicate_append)
  with Cons show ?case by simp
qed

lemma keywords_of_search_reddit:
  "map keyword_of (search_reddit fmt lower reddit kws subreddit limit time_filter) =
     concat (map (\<lambda>keyword.
       replicate (length (keyword_block fmt lower reddit subreddit limit time_filter keyword))
         (Some (VStr keyword))) kws)"
  by (simp add: search_reddit_blocks map_concat comp_def keywords_of_block)

text \<open>
  Claim C5, as amended. For every keyword list the output is the concatenation, in the
  order of the list, of one block per entry of the list. A block holds only records that
  carry the keyword of its entry, and it is the concatenation of one group per returned
  post: the Post Record, immediately followed by the Comment Records of the matching
  comments of that post. When no keyword occurs twice in the list, the records of a
  keyword are contiguous: the runs of equal keywords in the output are, in order, the
  keywords of the list that have records, each once. (A keyword that occurs twice in the
  list has one block per occurrence.)
\<close>

theorem output_is_blocks_in_keyword_order:
  "search_reddit fmt lower reddit kws subreddit limit time_filter =
     concat (map (\<lambda>keyword.
       concat (map (\<lambda>submission.
         post_data fmt keyword submission
           # map (comment_data fmt keyword submission)
               (filter (\<lambda>comment. str_in (lower keyword) (lower (comment_body comment)))
                  (submission_comments submission)))
         (submissions_of reddit subreddit limit time_filter keyword))) kws)
   \<and> search_reddit fmt lower reddit kws subreddit limit time_filter =
       concat (map (keyword_block fmt lower reddit subreddit limit time_filter) kws)
   \<and> (\<forall>keyword. \<forall>r \<in> set (keyword_block fmt lower reddit subreddit limit time_filter keyword).
        keyword_of r = Some (VStr keyword))
   \<and> (distinct kws \<longrightarrow>
        remdups_adj (map keyword_of (search_reddit fmt lower reddit kws subreddit limit time_filter)) =
          map (\<lambda>keyword. Some (VStr keyword))
            (filter (\<lambda>keyword. keyword_block fmt lower reddit subreddit limit time_filter keyword \<noteq> [])
               kws))"
proof (intro conjI allI ballI impI)
  show "search_reddit fmt lower reddit kws subreddit limit time_filter =
     concat (map (\<lambda>keyword.
       concat (map (\<lambda>submission.
         post_data fmt keyword submission
           # map (comment_data fmt keyword submission)
               (filter (\<lambda>comment. str_in (lower keyword) (lower (comment_body comment)))
                  (submission_comments submission)))
         (submissions_of reddit subreddit limit time_filter keyword))) kws)"
    by (simp add: search_reddit_blocks keyword_block_def [abs_def] post_group_def [abs_def]
        matching_comments_def)
next
  show "search_reddit fmt lower reddit kws subreddit limit time_filter =
       concat (map (keyword_block fmt lower reddit subreddit limit time_filter) kws)"
    by (rule search_reddit_blocks)
next
  fix keyword r
  assume "r \<in> set (keyword_block fmt lower reddit subreddit limit time_filter keyword)"
  then show "keyword_of r = Some (VStr keyword)" by (rule keyword_of_block)
next
  assume d: "distinct kws"
  have "inj (\<lambda>keyword. Some (VStr keyword))" by (simp add: inj_def)
  from remdups_adj_runs [OF this d,
      of "\<lambda>keyword. length (keyword_block fmt lower reddit subreddit limit time_filter keyword)"]
  show "remdups_adj (map keyword_of (search_reddit fmt lower reddit kws subreddit limit time_filter)) =
          map (\<lambda>keyword. Some (VStr keyword))
            (filter (\<lambda>keyword. keyword_block fmt lower reddit subreddit limit time_filter keyword \<noteq> [])
               kws)"
    by (simp add: keywords_of_search_reddit)
qed

theorem output_is_blocks_in_keyword_order_witness:
  "distinct [''foo'', ''nothing'', ''bar'']
   \<and> remdups_adj (map keyword_of
        (search_reddit ex_fmt ex_lower ex_reddit [''foo'', ''nothing'', ''bar''] None 2 ''day'')) =
       [Some (VStr ''foo''), Some (VStr ''bar'')]
   \<and> keyword_of (post_data ex_fmt ''bar'' ex_submission3) = Some (VStr ''bar'')"
proof -
  have b: "keyword_block ex_fmt ex_lower ex_reddit None 2 ''day'' ''foo'' \<noteq> []"
    "keyword_block ex_fmt ex_lower ex_reddit None 2 ''day'' ''nothing'' = []"
    "keyword_block ex_fmt ex_lower ex_reddit None 2 ''day'' ''bar'' = [post_data ex_fmt ''bar'' ex_submission3]"
    by code_simp+
  have d: "distinct [''foo'', ''nothing'', ''bar'']" by simp
  note inst = output_is_blocks_in_keyword_order
    [of ex_fmt ex_lower ex_reddit "[''foo'', ''nothing'', ''bar'']" None 2 "''day''"]
  from inst d have "remdups_adj (map keyword_of
        (search_reddit ex_fmt ex_lower ex_reddit [''foo'', ''nothing'', ''bar''] None 2 ''day'')) =
     map (\<lambda>keyword. Some (VStr keyword))
       (filter (\<lambda>keyword. keyword_block ex_fmt ex_lower ex_reddit None 2 ''day'' keyword \<noteq> [])
          [''foo'', ''nothing'', ''bar''])"
    by blast
  then have r: "remdups_adj (map keyword_of
        (search_reddit ex_fmt ex_lower ex_reddit [''foo'', ''nothing'', ''bar''] None 2 ''day'')) =
       [Some (VStr ''foo''), Some (VStr ''bar'')]"
    by (simp add: b)
  have m: "post_data ex_fmt ''bar'' ex_submission3
     \<in> set (keyword_block ex_fmt ex_lower ex_reddit None 2 ''day'' ''bar'')"
    by (simp add: b)
  from inst m have "keyword_of (post_data ex_fmt ''bar'' ex_submission3) = Some (VStr ''bar'')"
    by blast
  with d r show ?thesis by blast
qed

text \<open>The claim as written fails for a keyword list with a repeated keyword: the records
  of \<^verbatim>\<open>foo\<close> are in two runs, with the record of \<^verbatim>\<open>bar\<close> between them.\<close>

theorem keyword_records_contiguous_counterexample:
  "map keyword_of (search_reddit ex_fmt ex_lower ex_reddit [''foo'', ''bar'', ''foo''] None 1 ''week'') =
     [Some (VStr ''foo''), Some (VStr ''foo''), Some (VStr ''bar''),
      Some (VStr ''foo''), Some (VStr ''foo'')]"
  by code_simp

section \<open>The writer\<close>

lemma fold_fieldnames:
  "fold (\<lambda>result fieldnames. fieldnames \<union> set (keys result)) results A =
     A \<union> (\<Union>r \<in> set results. set (keys r))"
  by (induction results arbitrary: A) auto

lemma fieldnames_of_eq:
  "fieldnames_of results = sorted_list_of_set (\<Union>r \<in> set results. set (keys r))"
  by (simp add: fieldnames_of_def fold_fieldnames)

lemma set_fieldnames_of:
  "set (fieldnames_of results) = (\<Union>r \<in> set results. set (keys r))"
  by (simp add: fieldnames_of_eq)

text \<open>The field names hold every key of every record, so no row raises.\<close>

lemma writerows_all_known:
  "(\<forall>r \<in> set results. set (keys r) \<subseteq> set fieldnames) \<Longrightarrow>
     writerows fieldnames results csvfile =
       (None, csvfile @ map (row_cells fieldnames) results)"
  by (induction results arbitrary: csvfile)
     (auto simp: dict_to_list_def list_ex_iff)

lemma writerows_fieldnames_of:
  "writerows (fieldnames_of results) results csvfile =
     (None, csvfile @ map (row_cells (fieldnames_of results)) results)"
  by (rule writerows_all_known) (auto simp: set_fieldnames_of)

lemma save_to_csv_nonempty:
  "results \<noteq> [] \<Longrightarrow> writable w filename \<Longrightarrow>
     save_to_csv results filename w =
       (None, w\<lparr>files := (files w)(filename \<mapsto>
                   map VStr (fieldnames_of results)
                     # map (row_cells (fieldnames_of results)) results),
                 stdout := stdout w @ [''Results saved to '' @ filename]\<rparr>)"
  by (simp add: save_to_csv_def Let_def writerows_fieldnames_of)


text \<open>
  Claim C7. The field names the writer computes are the sorted list of the union of the
  keys of all records: sorted in the lexicographic order of strings, without
  repetition, and the same for every permutation of the records. For a non-empty
  sequence they are the header, the first row of the file, wherever the writer can open
  the destination.
\<close>

theorem header_is_sorted_union_of_keys:
  "fieldnames_of results = sorted_list_of_set (\<Union>r \<in> set results. set (keys r))
   \<and> set (fieldnames_of results) = (\<Union>r \<in> set results. set (keys r))
   \<and> sorted (fieldnames_of results) \<and> distinct (fieldnames_of results)
   \<and> (mset results' = mset results \<longrightarrow> fieldnames_of results' = fieldnames_of results)
   \<and> (results \<noteq> [] \<and> writable w filename \<longrightarrow>
        (\<exists>rows. files (snd (save_to_csv results filename w)) filename =
           Some (map VStr (fieldnames_of results) # rows)))"
proof (intro conjI impI)
  show "fieldnames_of results = sorted_list_of_set (\<Union>r \<in> set results. set (keys r))"
    by (rule fieldnames_of_eq)
  show "set (fieldnames_of results) = (\<Union>r \<in> set results. set (keys r))"
    by (rule set_fieldnames_of)
  show "sorted (fieldnames_of results)" and "distinct (fieldnames_of results)"
    by (simp_all add: fieldnames_of_eq)
next
  assume "mset results' = mset results"
  then have "set results' = set results" by (rule mset_eq_setD)
  then show "fieldnames_of results' = fieldnames_of results"
    by (simp add: fieldnames_of_eq)
next
  assume "results \<noteq> [] \<and> writable w filename"
  then show "\<exists>rows. files (snd (save_to_csv results filename w)) filename =
           Some (map VStr (fieldnames_of results) # rows)"
    by (simp add: save_to_csv_nonempty)
qed

lemma ex_rows_fieldnames:
  "fieldnames_of ex_rows = [''a'', ''b'', ''c'']"
  "fieldnames_of (rev ex_rows) = [''a'', ''b'', ''c'']"
  by code_simp+

lemma ex_world_writable:
  "writable ex_world ''out.csv''"
  "\<not> writable ex_world ''nonexistent_dir/out.csv''"
  by (simp_all add: ex_world_def ex_writable_def)

theorem header_is_sorted_union_of_keys_witness:
  "mset (rev ex_rows) = mset ex_rows
   \<and> fieldnames_of (rev ex_rows) = fieldnames_of ex_rows
   \<and> fieldnames_of ex_rows = [''a'', ''b'', ''c'']
   \<and> ex_rows \<noteq> [] \<and> writable ex_world ''out.csv''
   \<and> (\<exists>rows. files (snd (save_to_csv ex_rows ''out.csv'' ex_world)) ''out.csv'' =
         Some ([VStr ''a'', VStr ''b'', VStr ''c''] # rows))"
proof -
  have m: "mset (rev ex_rows) = mset ex_rows" by simp
  have n: "ex_rows \<noteq> []" by (simp add: ex_rows_def)
  note o = ex_world_writable(1)
  note inst = header_is_sorted_union_of_keys
    [of ex_rows "rev ex_rows" ex_world "''out.csv''"]
  from inst m have p: "fieldnames_of (rev ex_rows) = fieldnames_of ex_rows" by blast
  from inst n o
  have "\<exists>rows. files (snd (save_to_csv ex_rows ''out.csv'' ex_world)) ''out.csv'' =
           Some (map VStr (fieldnames_of ex_rows) # rows)"
    by blast
  then have h: "\<exists>rows. files (snd (save_to_csv ex_rows ''out.csv'' ex_world)) ''out.csv'' =
         Some ([VStr ''a'', VStr ''b'', VStr ''c''] # rows)"
    by (simp add: ex_rows_fieldnames)
  from m p n o h ex_rows_fieldnames(1) show ?thesis by blast
qed




section \<open>One schema for all records\<close>

lemma field_names_sorted_distinct: "sorted field_names" "distinct field_names"
  by code_simp+

lemma keys_of_output:
  assumes "r \<in> set (search_reddit fmt lower reddit kws subreddit limit time_filter)"
  shows "set (keys r) = set field_names" and "distinct (keys r)" and "length (keys r) = 11"
proof -
  from assms consider keyword submission where "r = post_data fmt keyword submission"
    | keyword submission comment where "r = comment_data fmt keyword submission comment"
    by (auto simp: in_search_reddit_iff)
  then have "keys r =
       [''keyword'', ''title'', ''author'', ''subreddit'', ''score'', ''url'', ''created_utc'',
        ''post_id'', ''is_self_post'', ''content_type'', ''content'']
     \<or> keys r =
       [''keyword'', ''title'', ''author'', ''subreddit'', ''score'', ''url'', ''created_utc'',
        ''post_id'', ''is_self_post'', ''content'', ''content_type'']"
    by cases (simp_all add: keys_post_data keys_comment_data)
  then show "set (keys r) = set field_names" and "distinct (keys r)" and "length (keys r) = 11"
    by (auto simp: field_names_def)
qed

lemma fieldnames_of_output:
  assumes "search_reddit fmt lower reddit kws subreddit limit time_filter \<noteq> []"
  shows "fieldnames_of (search_reddit fmt lower reddit kws subreddit limit time_filter) = field_names"
proof -
  let ?rs = "search_reddit fmt lower reddit kws subreddit limit time_filter"
  from assms obtain r where "r \<in> set ?rs" by (cases ?rs) auto
  then have "(\<Union>r \<in> set ?rs. set (keys r)) = set field_names"
    using keys_of_output(1) [of _ fmt lower reddit kws subreddit limit time_filter] by blast
  then have "fieldnames_of ?rs = sorted_list_of_set (set field_names)"
    by (simp add: fieldnames_of_eq)
  also have "\<dots> = field_names"
    using field_names_sorted_distinct by (rule sorted_list_of_set.idem_if_sorted_distinct)
  finally show ?thesis .
qed

lemma dict_get_key: "f \<in> set (keys r) \<Longrightarrow> dict_get r f \<noteq> None"
  by (simp add: dict_get_def keys_def map_of_eq_None_iff)

text \<open>
  Claim C10. Every record of the output, post or comment, has the same eleven field
  names, each once. So, for a non-empty output, the field names the writer computes are
  these eleven, sorted; they are the key set of each single record; and every record has
  a value for every column, so that no cell of a written row is the default for a
  missing field.
\<close>

theorem records_have_the_eleven_fields:
  "(\<forall>r \<in> set (search_reddit fmt lower reddit kws subreddit limit time_filter).
      set (keys r) =
        {''keyword'', ''title'', ''author'', ''subreddit'', ''score'', ''url'', ''created_utc'',
         ''post_id'', ''is_self_post'', ''content'', ''content_type''}
      \<and> distinct (keys r) \<and> length (keys r) = 11
      \<and> set (fieldnames_of (search_reddit fmt lower reddit kws subreddit limit time_filter)) =
          set (keys r)
      \<and> (\<forall>f \<in> set (fieldnames_of (search_reddit fmt lower reddit kws subreddit limit time_filter)).
            dict_get r f \<noteq> None))
   \<and> (search_reddit fmt lower reddit kws subreddit limit time_filter \<noteq> [] \<longrightarrow>
        fieldnames_of (search_reddit fmt lower reddit kws subreddit limit time_filter) =
          [''author'', ''content'', ''content_type'', ''created_utc'', ''is_self_post'',
           ''keyword'', ''post_id'', ''score'', ''subreddit'', ''title'', ''url''])"
proof (intro conjI ballI impI)
  let ?rs = "search_reddit fmt lower reddit kws subreddit limit time_filter"
  fix r
  assume r: "r \<in> set ?rs"
  then have ne: "?rs \<noteq> []" by auto
  from r have k: "set (keys r) = set field_names" by (rule keys_of_output)
  then show "set (keys r) =
        {''keyword'', ''title'', ''author'', ''subreddit'', ''score'', ''url'', ''created_utc'',
         ''post_id'', ''is_self_post'', ''content'', ''content_type''}"
    by (auto simp: field_names_def)
  from r show "distinct (keys r)" and "length (keys r) = 11"
    by (rule keys_of_output)+
  from ne k show u: "set (fieldnames_of ?rs) = set (keys r)"
    by (simp add: fieldnames_of_output)
  fix f
  assume "f \<in> set (fieldnames_of ?rs)"
  with u show "dict_get r f \<noteq> None" by (simp add: dict_get_key)
next
  assume "search_reddit fmt lower reddit kws subreddit limit time_filter \<noteq> []"
  then show "fieldnames_of (search_reddit fmt lower reddit kws subreddit limit time_filter) =
          [''author'', ''content'', ''content_type'', ''created_utc'', ''is_self_post'',
           ''keyword'', ''post_id'', ''score'', ''subreddit'', ''title'', ''url'']"
    by (simp add: fieldnames_of_output field_names_def)
qed

theorem records_have_the_eleven_fields_witness:
  "search_reddit ex_fmt ex_lower ex_reddit [''Foo''] None 10 ''week'' \<noteq> []
   \<and> fieldnames_of (search_reddit ex_fmt ex_lower ex_reddit [''Foo''] None 10 ''week'') =
       [''author'', ''content'', ''content_type'', ''created_utc'', ''is_self_post'',
        ''keyword'', ''post_id'', ''score'', ''subreddit'', ''title'', ''url'']
   \<and> length (keys (comment_data ex_fmt ''Foo'' ex_submission1 ex_comment1)) = 11
   \<and> dict_get (comment_data ex_fmt ''Foo'' ex_submission1 ex_comment1) ''url'' \<noteq> None
   \<and> row_cells (fieldnames_of (search_reddit ex_fmt ex_lower ex_reddit [''Foo''] None 10 ''week''))
        (post_data ex_fmt ''Foo'' ex_submission2) =
       [VStr ''None'', VStr ''[External link]'', VStr ''submission'',
        VStr ''1970-01-01 00:00:00'', VBool False, VStr ''Foo'', VStr ''p2'', VInt 2,
        VStr ''test'', VStr ''A foo link'',
        VStr ''https://www.reddit.com/r/test/comments/p2/a_foo_link/'']"
proof -
  let ?rs = "search_reddit ex_fmt ex_lower ex_reddit [''Foo''] None 10 ''week''"
  let ?c = "comment_data ex_fmt ''Foo'' ex_submission1 ex_comment1"
  note inst = records_have_the_eleven_fields
    [of ex_fmt ex_lower ex_reddit "[''Foo'']" None 10 "''week''"]
  have ne: "?rs \<noteq> []" and mem: "?c \<in> set ?rs"
    by (simp_all add: ex_results_Foo)
  from inst ne have fs: "fieldnames_of ?rs =
       [''author'', ''content'', ''content_type'', ''created_utc'', ''is_self_post'',
        ''keyword'', ''post_id'', ''score'', ''subreddit'', ''title'', ''url'']"
    by blast
  from inst mem have len: "length (keys ?c) = 11"
    and all: "\<forall>f \<in> set (fieldnames_of ?rs). dict_get ?c f \<noteq> None"
    by blast+
  from all have url: "dict_get ?c ''url'' \<noteq> None"
    by (simp add: fs)
  have row: "row_cells
        [''author'', ''content'', ''content_type'', ''created_utc'', ''is_self_post'',
         ''keyword'', ''post_id'', ''score'', ''subreddit'', ''title'', ''url'']
        (post_data ex_fmt ''Foo'' ex_submission2) =
       [VStr ''None'', VStr ''[External link]'', VStr ''submission'',
        VStr ''1970-01-01 00:00:00'', VBool False, VStr ''Foo'', VStr ''p2'', VInt 2,
        VStr ''test'', VStr ''A foo link'',
        VStr ''https://www.reddit.com/r/test/comments/p2/a_foo_link/'']"
    by code_simp
  from ne fs len url row show ?thesis by simp
qed

end
